theory Spec2Isabelle
  imports Main "HOL-Library.Sublist"
begin

section \<open>Strings and paths\<close>

text \<open>
  Paths and file contents are byte strings. The script runs on Node.js; the functions of
  this section are the POSIX behaviour of the platform functions the script calls
  (\<^verbatim>\<open>String.prototype.toLowerCase\<close>, \<^verbatim>\<open>String.prototype.replace\<close> with a string
  pattern, \<^verbatim>\<open>path.extname\<close>, \<^verbatim>\<open>path.join\<close>, \<^verbatim>\<open>path.resolve\<close>). Case mapping is
  the ASCII one, which is all that the comparison with the extension lists can see.
\<close>

definition lowerChar :: "char \<Rightarrow> char" where
  "lowerChar c =
     (case map_of (zip ''ABCDEFGHIJKLMNOPQRSTUVWXYZ'' ''abcdefghijklmnopqrstuvwxyz'') c of
        Some l \<Rightarrow> l
      | None \<Rightarrow> c)"

definition toLowerCase :: "string \<Rightarrow> string" where
  "toLowerCase s = map lowerChar s"

text \<open>
  \<^verbatim>\<open>s.indexOf(pat)\<close>: the position of the first occurrence of \<open>pat\<close> in \<open>s\<close>. The empty
  pattern occurs at position 0.
\<close>

fun indexOf :: "string \<Rightarrow> string \<Rightarrow> nat option" where
  "indexOf pat [] = (if pat = [] then Some 0 else None)"
| "indexOf pat (c # cs) =
     (if prefix pat (c # cs) then Some 0 else map_option Suc (indexOf pat cs))"

text \<open>
  \<^verbatim>\<open>s.replace(pat, rep)\<close> with a string pattern replaces the first occurrence of \<open>pat\<close>
  only, and leaves \<open>s\<close> as it is when there is none. An empty pattern matches at position
  0, so \<open>rep\<close> is put in front of \<open>s\<close>. (The replacement strings of the script hold no
  \<^verbatim>\<open>$\<close>, so no replacement pattern is expanded.)
\<close>

fun replace :: "string \<Rightarrow> string \<Rightarrow> string \<Rightarrow> string" where
  "replace pat rep [] = (if pat = [] then rep else [])"
| "replace pat rep (c # cs) =
     (if prefix pat (c # cs) then rep @ drop (length pat) (c # cs)
      else c # replace pat rep cs)"

text \<open>
  \<^verbatim>\<open>path.extname(p)\<close>: trailing slashes are dropped, the last component is taken, and the
  extension runs from its last dot to its end. It is empty when the component has no dot,
  when nothing stands before the last dot (a dot file), and for the component \<^verbatim>\<open>..\<close>.
  The component is handled reversed, as Node scans it from the right.
\<close>

definition extname :: "string \<Rightarrow> string" where
  "extname p =
     (let cr = takeWhile (\<lambda>c. c \<noteq> CHR ''/'') (dropWhile (\<lambda>c. c = CHR ''/'') (rev p));
          er = takeWhile (\<lambda>c. c \<noteq> CHR ''.'') cr
      in case dropWhile (\<lambda>c. c \<noteq> CHR ''.'') cr of
           [] \<Rightarrow> []
         | dot # pre \<Rightarrow>
             if pre = [] then []
             else if cr = ''..'' then []
             else rev (er @ [dot]))"

fun splitOn :: "char \<Rightarrow> string \<Rightarrow> string list" where
  "splitOn sep [] = [[]]"
| "splitOn sep (c # cs) =
     (if c = sep then [] # splitOn sep cs
      else (case splitOn sep cs of
              [] \<Rightarrow> [[c]]
            | seg # segs \<Rightarrow> (c # seg) # segs))"

fun joinSegments :: "string list \<Rightarrow> string" where
  "joinSegments [] = []"
| "joinSegments [s] = s"
| "joinSegments (s # t # ss) = s @ ''/'' @ joinSegments (t # ss)"

text \<open>
  Node's \<^verbatim>\<open>normalizeString\<close>: empty segments and \<^verbatim>\<open>.\<close> are dropped; \<^verbatim>\<open>..\<close> removes the
  segment before it, and is kept only where the path may climb above its start.
\<close>

definition normalizeStep :: "bool \<Rightarrow> string list \<Rightarrow> string \<Rightarrow> string list" where
  "normalizeStep allowAboveRoot res seg =
     (if seg = [] \<or> seg = ''.'' then res
      else if seg = ''..'' then
        (if res \<noteq> [] \<and> last res \<noteq> ''..'' then butlast res
         else if allowAboveRoot then res @ [''..'']
         else res)
      else res @ [seg])"

definition normalizeString :: "string \<Rightarrow> bool \<Rightarrow> string" where
  "normalizeString p allowAboveRoot =
     joinSegments (foldl (normalizeStep allowAboveRoot) [] (splitOn (CHR ''/'') p))"

definition isAbsolute :: "string \<Rightarrow> bool" where
  "isAbsolute p = (case p of [] \<Rightarrow> False | c # _ \<Rightarrow> c = CHR ''/'')"

definition normalize :: "string \<Rightarrow> string" where
  "normalize p =
     (if p = [] then ''.''
      else
        let trailingSeparator = (last p = CHR ''/'');
            q = normalizeString p (\<not> isAbsolute p)
        in if q = [] then (if isAbsolute p then ''/'' else if trailingSeparator then ''./'' else ''.'')
           else (if isAbsolute p then ''/'' else []) @ q @ (if trailingSeparator then ''/'' else []))"

text \<open>\<^verbatim>\<open>path.join(a, b)\<close>: the non-empty arguments joined by a slash, normalised.\<close>

definition join :: "string \<Rightarrow> string \<Rightarrow> string" where
  "join a b =
     (if a = [] \<and> b = [] then ''.''
      else normalize (if a = [] then b else if b = [] then a else a @ ''/'' @ b))"

text \<open>
  \<^verbatim>\<open>path.resolve(f)\<close> for the working directory \<open>cwd\<close>: \<open>f\<close> itself when it is absolute,
  \<open>f\<close> under \<open>cwd\<close> otherwise; normalised, without a trailing slash.
\<close>

definition resolve :: "string \<Rightarrow> string \<Rightarrow> string" where
  "resolve cwd f =
     (let resolvedPath = (if isAbsolute f then f @ ''/'' else cwd @ ''/'' @ f @ ''/'');
          q = normalizeString resolvedPath (\<not> isAbsolute resolvedPath)
      in if isAbsolute resolvedPath then ''/'' @ q
         else if q = [] then ''.'' else q)"

section \<open>Configuration, statistics and the world the script runs in\<close>

datatype format = Webp | Avif

definition formatName :: "format \<Rightarrow> string" where
  "formatName f = (case f of Webp \<Rightarrow> ''webp'' | Avif \<Rightarrow> ''avif'')"

text \<open>
  The \<^verbatim>\<open>CONFIG\<close> object. The two extension lists are constants of the script; the other
  fields come from the command line and the environment. \<^verbatim>\<open>OUTPUT_FORMAT\<close> is one of
  the two strings \<^verbatim>\<open>webp\<close> and \<^verbatim>\<open>avif\<close> by the way the arguments are parsed.
\<close>

record config =
  ASSETS_DIR :: string
  OUTPUT_FORMAT :: format
  LOSSLESS :: bool
  WEBP_QUALITY :: int
  WEBP_EFFORT :: int
  AVIF_QUALITY :: int
  AVIF_EFFORT :: int

definition SUPPORTED_IMAGE_FORMATS :: "string list" where
  "SUPPORTED_IMAGE_FORMATS = [''.jpg'', ''.jpeg'', ''.png'', ''.gif'']"

definition SUPPORTED_VIDEO_FORMATS :: "string list" where
  "SUPPORTED_VIDEO_FORMATS = [''.mp4'', ''.webm'', ''.mov'']"

text \<open>The module-level \<^verbatim>\<open>stats\<close> object; every field starts at 0.\<close>

record stats =
  totalFiles :: nat
  converted :: nat
  skipped :: nat
  errors :: nat
  originalSize :: nat
  outputSize :: nat
  avifSize :: nat

definition initialStats :: stats where
  "initialStats =
     \<lparr>totalFiles = 0, converted = 0, skipped = 0, errors = 0,
      originalSize = 0, outputSize = 0, avifSize = 0\<rparr>"

type_synonym bytes = string

text \<open>
  What the script hands to the image library for one file: the options object given to
  \<^verbatim>\<open>.avif(...)\<close> or \<^verbatim>\<open>.webp(...)\<close>. An option the script leaves out is \<open>None\<close>.
\<close>

record sharpOptions =
  outputFormat :: format
  item :: "bool option"
  quality :: int
  effort :: int
  lossless :: "bool option"
  loop :: "nat option"

record metadata =
  width :: nat
  height :: nat
  pages :: "nat option"

text \<open>
  The image library is an opaque collaborator: \<open>readMetadata\<close> is \<^verbatim>\<open>image.metadata()\<close>
  on the input file (\<open>None\<close> when it rejects), \<open>toFile\<close> is the encode and write of the
  output file. Both are functions of the input path, the bytes of the input and, for the
  write, the options and the output path. The library writes at the output path and
  nowhere else; a failed write may or may not leave a file behind there.
\<close>

datatype writeResult = Written bytes | WriteFailed "bytes option"

record sharp =
  readMetadata :: "string \<Rightarrow> bytes \<Rightarrow> metadata option"
  toFile :: "sharpOptions \<Rightarrow> string \<Rightarrow> bytes \<Rightarrow> string \<Rightarrow> writeResult"

text \<open>
  The world: the files by the path string they are reached under, the statistics, and the
  log of the calls of \<open>toFile\<close> (options, input path, output path). A file is identified
  with its path string; the run is sequential and nothing else writes meanwhile.
  \<^verbatim>\<open>fs.access\<close> accepts exactly the paths of the map. The counters and byte totals are
  natural numbers.
\<close>

record world =
  files :: "string \<rightharpoonup> bytes"
  stats :: stats
  toFileCalls :: "(sharpOptions \<times> string \<times> string) list"

definition access :: "(string \<rightharpoonup> bytes) \<Rightarrow> string \<Rightarrow> bool" where
  "access fs p = (fs p \<noteq> None)"

datatype error = StatFailed | MetadataFailed | TypeError | ToFileFailed

datatype outcome = Converted nat nat | Skipped | Failed error

section \<open>The conversion of one file\<close>

definition isVideoFormat :: "string \<Rightarrow> bool" where
  "isVideoFormat filePath = (toLowerCase (extname filePath) \<in> set SUPPORTED_VIDEO_FORMATS)"

definition isGifFormat :: "string \<Rightarrow> bool" where
  "isGifFormat filePath = (toLowerCase (extname filePath) = ''.gif'')"

text \<open>The first three lines of \<^verbatim>\<open>convertMedia\<close>: the output path of an input path.\<close>

definition outputPathOf :: "config \<Rightarrow> string \<Rightarrow> string" where
  "outputPathOf cfg filePath =
     (let ext = extname filePath;
          outputExt = ''.'' @ formatName (OUTPUT_FORMAT cfg)
      in replace ext outputExt filePath)"

text \<open>
  The local constant \<^verbatim>\<open>isAnimated\<close> of \<^verbatim>\<open>convertMedia\<close>, and the guard under which
  \<^verbatim>\<open>convertMedia\<close> calls \<^verbatim>\<open>sharpInstance.animated(true)\<close>: animated input whose metadata
  report more than one page.
\<close>

definition isAnimated :: "string \<Rightarrow> bool" where
  "isAnimated filePath = (isGifFormat filePath \<or> isVideoFormat filePath)"

definition callsAnimated :: "string \<Rightarrow> metadata \<Rightarrow> bool" where
  "callsAnimated filePath md =
     (isAnimated filePath \<and> (case pages md of None \<Rightarrow> False | Some n \<Rightarrow> n > 1))"

text \<open>
  The options object of the chosen format, where a later spread overrides an earlier
  key.
\<close>

definition encodeParams :: "config \<Rightarrow> string \<Rightarrow> sharpOptions" where
  "encodeParams cfg filePath =
     (if OUTPUT_FORMAT cfg = Avif then
        \<lparr>outputFormat = Avif, item = Some True,
         quality = AVIF_QUALITY cfg,
         effort = (if isAnimated filePath then min (AVIF_EFFORT cfg) 4 else AVIF_EFFORT cfg),
         lossless = (if LOSSLESS cfg then Some True else None),
         loop = None\<rparr>
      else
        \<lparr>outputFormat = Webp, item = None,
         quality = WEBP_QUALITY cfg,
         effort = WEBP_EFFORT cfg,
         lossless = (if LOSSLESS cfg then Some True else None),
         loop = (if isAnimated filePath then Some 0 else None)\<rparr>)"

definition countError :: "error \<Rightarrow> world \<Rightarrow> outcome \<times> world" where
  "countError e w = (Failed e, w\<lparr>stats := (stats w)\<lparr>errors := errors (stats w) + 1\<rparr>\<rparr>)"

text \<open>
  \<^verbatim>\<open>convertMedia\<close>. Its whole body stands in one \<^verbatim>\<open>try\<close>; whatever throws ends in the
  \<^verbatim>\<open>catch\<close>, which counts an error and returns. \<^verbatim>\<open>fs.stat\<close> throws on a path with no
  file and gives the length of the file's contents otherwise. The pipeline object of the
  image library has no method \<^verbatim>\<open>animated\<close> (animation is an option of its constructor),
  so the call \<^verbatim>\<open>sharpInstance.animated(true)\<close> throws a \<^verbatim>\<open>TypeError\<close> whenever its guard
  lets it run, before any encoder is called.
\<close>

definition convertMedia :: "config \<Rightarrow> sharp \<Rightarrow> string \<Rightarrow> world \<Rightarrow> outcome \<times> world" where
  "convertMedia cfg lib filePath w =
     (let outputPath = outputPathOf cfg filePath;
          outputExists = access (files w) outputPath
      in if outputExists then
           (Skipped, w\<lparr>stats := (stats w)\<lparr>skipped := skipped (stats w) + 1\<rparr>\<rparr>)
         else
           (case files w filePath of
              None \<Rightarrow> countError StatFailed w
            | Some original \<Rightarrow>
                (let w1 = w\<lparr>stats := (stats w)\<lparr>originalSize :=
                             originalSize (stats w) + length original\<rparr>\<rparr>
                 in (case readMetadata lib filePath original of
                       None \<Rightarrow> countError MetadataFailed w1
                     | Some md \<Rightarrow>
                         if callsAnimated filePath md then countError TypeError w1
                         else
                         (let opts = encodeParams cfg filePath;
                              w2 = w1\<lparr>toFileCalls :=
                                     toFileCalls w1 @ [(opts, filePath, outputPath)]\<rparr>
                          in (case toFile lib opts filePath original outputPath of
                                WriteFailed left \<Rightarrow>
                                  countError ToFileFailed
                                    (case left of
                                       None \<Rightarrow> w2
                                     | Some partial \<Rightarrow>
                                         w2\<lparr>files := (files w2)(outputPath \<mapsto> partial)\<rparr>)
                              | Written out \<Rightarrow>
                                  (let w3 = w2\<lparr>files := (files w2)(outputPath \<mapsto> out)\<rparr>
                                   in (case files w3 outputPath of
                                         None \<Rightarrow> countError StatFailed w3
                                       | Some written \<Rightarrow>
                                           (Converted (length original) (length written),
                                            w3\<lparr>stats := (stats w3)
                                                 \<lparr>outputSize :=
                                                    outputSize (stats w3) + length written,
                                                  converted := converted (stats w3) + 1\<rparr>\<rparr>)))))))))"

section \<open>Scanning and the batch\<close>

text \<open>
  What \<^verbatim>\<open>readdir\<close> with file types gives: an entry is a directory with its own listing
  (\<open>None\<close> when reading it throws) or anything else, by its name.
\<close>

datatype dirent = FileEnt string | DirEnt string "dirent list option"

fun getMediaFiles :: "string \<Rightarrow> dirent list option \<Rightarrow> string list"
  and scanItems :: "string \<Rightarrow> dirent list \<Rightarrow> string list" where
  "getMediaFiles dir None = []"
| "getMediaFiles dir (Some items) = scanItems dir items"
| "scanItems dir [] = []"
| "scanItems dir (DirEnt name sub # rest) =
     getMediaFiles (join dir name) sub @ scanItems dir rest"
| "scanItems dir (FileEnt name # rest) =
     (if toLowerCase (extname name) \<in> set (SUPPORTED_IMAGE_FORMATS @ SUPPORTED_VIDEO_FORMATS)
      then [join dir name] else [])
     @ scanItems dir rest"

text \<open>The loop of \<^verbatim>\<open>main\<close> over the files, with the outcome of each.\<close>

fun processFiles ::
  "config \<Rightarrow> sharp \<Rightarrow> string list \<Rightarrow> world \<Rightarrow> (string \<times> outcome) list \<times> world" where
  "processFiles cfg lib [] w = ([], w)"
| "processFiles cfg lib (filePath # rest) w =
     (case convertMedia cfg lib filePath w of
        (out, w') \<Rightarrow>
          (case processFiles cfg lib rest w' of
             (outs, w'') \<Rightarrow> ((filePath, out) # outs, w'')))"

text \<open>
  The scan root as \<^verbatim>\<open>main\<close> sees it: \<^verbatim>\<open>fs.access\<close> rejects, or the root is there with
  the listing \<^verbatim>\<open>readdir\<close> gives for it.
\<close>

datatype rootState = RootMissing | RootPresent "dirent list option"

record environment =
  explicitFiles :: "string list"
  cwd :: string
  root :: rootState
  initialFiles :: "string \<rightharpoonup> bytes"

text \<open>
  The discovery of \<^verbatim>\<open>main\<close>: the explicit files that exist, resolved, when any file was
  named on the command line; the scan of the root otherwise. \<open>None\<close> is the throw of
  \<^verbatim>\<open>fs.access\<close> on the root.
\<close>

definition discover :: "config \<Rightarrow> environment \<Rightarrow> string list option" where
  "discover cfg env =
     (if explicitFiles env \<noteq> [] then
        Some (concat (map (\<lambda>f. let fullPath = resolve (cwd env) f
                               in if access (initialFiles env) fullPath then [fullPath] else [])
                          (explicitFiles env)))
      else case root env of
             RootMissing \<Rightarrow> None
           | RootPresent listing \<Rightarrow> Some (getMediaFiles (ASSETS_DIR cfg) listing))"

record result =
  exitCode :: nat
  final :: world
  processed :: "(string \<times> outcome) list"

definition main :: "config \<Rightarrow> sharp \<Rightarrow> environment \<Rightarrow> result" where
  "main cfg lib env =
     (let w0 = \<lparr>files = initialFiles env, stats = initialStats, toFileCalls = []\<rparr>
      in case discover cfg env of
           None \<Rightarrow> \<lparr>exitCode = 1, final = w0, processed = []\<rparr>
         | Some mediaFiles \<Rightarrow>
             let w1 = w0\<lparr>stats := (stats w0)\<lparr>totalFiles := length mediaFiles\<rparr>\<rparr>
             in if mediaFiles = [] then \<lparr>exitCode = 0, final = w1, processed = []\<rparr>
                else case processFiles cfg lib mediaFiles w1 of
                       (outs, w2) \<Rightarrow> \<lparr>exitCode = 0, final = w2, processed = outs\<rparr>)"

text \<open>The world \<^verbatim>\<open>main\<close> starts the loop in, for \<open>n\<close> files found.\<close>

abbreviation startWorld :: "environment \<Rightarrow> nat \<Rightarrow> world" where
  "startWorld env n \<equiv>
     \<lparr>files = initialFiles env, stats = initialStats\<lparr>totalFiles := n\<rparr>, toFileCalls = []\<rparr>"

section \<open>Concrete inputs\<close>

text \<open>
  The configuration the script has with no environment variable set, for either output
  format; an image library that rejects the contents \<^verbatim>\<open>corrupt\<close> when it reads the
  metadata and fails to encode the contents \<^verbatim>\<open>truncated\<close>; and a directory of three
  files, one of them corrupt and one converted before.
\<close>

definition defaultConfig :: "format \<Rightarrow> config" where
  "defaultConfig fmt =
     \<lparr>ASSETS_DIR = ''/site/assets'', OUTPUT_FORMAT = fmt, LOSSLESS = False,
      WEBP_QUALITY = 80, WEBP_EFFORT = 6, AVIF_QUALITY = 75, AVIF_EFFORT = 6\<rparr>"

definition sampleSharp :: sharp where
  "sampleSharp =
     \<lparr>readMetadata = (\<lambda>filePath contents.
         if contents = ''corrupt'' then None
         else Some \<lparr>width = 4, height = 3,
                    pages = (if contents = ''frames'' then Some 24
                             else if contents = ''still'' then Some 1
                             else None)\<rparr>),
      toFile = (\<lambda>opts filePath contents outputPath.
         if contents = ''truncated'' then WriteFailed None else Written ''encoded'')\<rparr>"

definition sampleFiles :: "string \<rightharpoonup> bytes" where
  "sampleFiles =
     [''/site/assets/c.jpg'' \<mapsto> ''corrupt'',
      ''/site/assets/a.jpg'' \<mapsto> ''photo'',
      ''/site/assets/b.png'' \<mapsto> ''logo'',
      ''/site/assets/b.webp'' \<mapsto> ''encoded'',
      ''/site/assets/t.png'' \<mapsto> ''truncated'',
      ''/site/assets/spin.gif'' \<mapsto> ''frames'',
      ''/site/assets/still.gif'' \<mapsto> ''still'',
      ''/site/notes.txt'' \<mapsto> ''text'']"

definition sampleScan :: environment where
  "sampleScan =
     \<lparr>explicitFiles = [], cwd = ''/site'',
      root = RootPresent (Some [FileEnt ''c.jpg'', FileEnt ''a.jpg'', FileEnt ''b.png'',
                                FileEnt ''b.webp'']),
      initialFiles = sampleFiles\<rparr>"

text \<open>The same files, with three of them named on the command line; one is not there.\<close>

definition sampleExplicit :: environment where
  "sampleExplicit =
     \<lparr>explicitFiles = [''notes.txt'', ''gone.png'', ''./assets/a.jpg''], cwd = ''/site'',
      root = RootPresent (Some []),
      initialFiles = sampleFiles\<rparr>"

definition missingExplicit :: environment where
  "missingExplicit =
     \<lparr>explicitFiles = [''gone.png''], cwd = ''/site'',
      root = RootPresent (Some []),
      initialFiles = sampleFiles\<rparr>"

text \<open>
  A directory with one file whose name holds its extension twice, scanned before a run
  and again after it: the second listing has the file the first run wrote.
\<close>

definition rescanFirst :: environment where
  "rescanFirst =
     \<lparr>explicitFiles = [], cwd = ''/site'',
      root = RootPresent (Some [FileEnt ''shot.jpg.jpg'']),
      initialFiles = [''/site/assets/shot.jpg.jpg'' \<mapsto> ''photo'']\<rparr>"

definition rescanSecond :: environment where
  "rescanSecond =
     \<lparr>explicitFiles = [], cwd = ''/site'',
      root = RootPresent (Some [FileEnt ''shot.jpg.jpg'', FileEnt ''shot.webp.jpg'']),
      initialFiles = files (final (main (defaultConfig Webp) sampleSharp rescanFirst))\<rparr>"

text \<open>
  A file is settled when a run has nothing left to do for it: its output path exists, or
  converting it fails without leaving a file behind.
\<close>

definition failsQuietly :: "config \<Rightarrow> sharp \<Rightarrow> (string \<rightharpoonup> bytes) \<Rightarrow> string \<Rightarrow> bool" where
  "failsQuietly cfg lib fs p =
     (case fs p of
        None \<Rightarrow> True
      | Some original \<Rightarrow>
          (case readMetadata lib p original of
             None \<Rightarrow> True
           | Some md \<Rightarrow>
               callsAnimated p md
               \<or> toFile lib (encodeParams cfg p) p original (outputPathOf cfg p)
                   = WriteFailed None))"

definition settled :: "config \<Rightarrow> sharp \<Rightarrow> (string \<rightharpoonup> bytes) \<Rightarrow> string \<Rightarrow> bool" where
  "settled cfg lib fs p = (access fs (outputPathOf cfg p) \<or> failsQuietly cfg lib fs p)"

text \<open>
  The non-directory entries a scan meets, each with the directory it is met in: the
  traversal of \<^verbatim>\<open>getMediaFiles\<close> without its test of the extension.
\<close>

fun fileEntries :: "string \<Rightarrow> dirent list option \<Rightarrow> (string \<times> string) list"
  and entriesIn :: "string \<Rightarrow> dirent list \<Rightarrow> (string \<times> string) list" where
  "fileEntries dir None = []"
| "fileEntries dir (Some items) = entriesIn dir items"
| "entriesIn dir [] = []"
| "entriesIn dir (DirEnt name sub # rest) = fileEntries (join dir name) sub @ entriesIn dir rest"
| "entriesIn dir (FileEnt name # rest) = (dir, name) # entriesIn dir rest"

lemmas eval_defs = main_def discover_def convertMedia_def countError_def outputPathOf_def
  extname_def access_def join_def normalize_def normalizeString_def normalizeStep_def
  isAbsolute_def resolve_def toLowerCase_def lowerChar_def formatName_def encodeParams_def
  isGifFormat_def isVideoFormat_def isAnimated_def callsAnimated_def
  SUPPORTED_IMAGE_FORMATS_def SUPPORTED_VIDEO_FORMATS_def
  initialStats_def defaultConfig_def sampleSharp_def sampleFiles_def sampleScan_def
  Let_def

section \<open>Every file is counted once\<close>

lemma convertMedia_counters:
  "convertMedia cfg lib p w = (out, w') \<Longrightarrow>
     converted (stats w') + skipped (stats w') + errors (stats w')
       = converted (stats w) + skipped (stats w) + errors (stats w) + 1
     \<and> totalFiles (stats w') = totalFiles (stats w)"
  by (auto simp: convertMedia_def countError_def Let_def
           split: if_splits option.splits writeResult.splits)

lemma processFiles_counters:
  "processFiles cfg lib ps w = (outs, w') \<Longrightarrow>
     converted (stats w') + skipped (stats w') + errors (stats w')
       = converted (stats w) + skipped (stats w) + errors (stats w) + length ps
     \<and> totalFiles (stats w') = totalFiles (stats w)"
proof (induction ps arbitrary: w outs w')
  case Nil
  then show ?case by simp
next
  case (Cons p ps)
  obtain out w1 where c: "convertMedia cfg lib p w = (out, w1)"
    by (cases "convertMedia cfg lib p w")
  obtain outs1 w2 where r: "processFiles cfg lib ps w1 = (outs1, w2)"
    by (cases "processFiles cfg lib ps w1")
  from Cons.prems c r have "w' = w2" by simp
  with Cons.IH [OF r] convertMedia_counters [OF c] show ?case by simp
qed

lemma main_final:
  assumes "discover cfg env = Some mediaFiles"
  shows "final (main cfg lib env) =
           snd (processFiles cfg lib mediaFiles
                  \<lparr>files = initialFiles env,
                   stats = initialStats\<lparr>totalFiles := length mediaFiles\<rparr>,
                   toFileCalls = []\<rparr>)"
    and "processed (main cfg lib env) =
           fst (processFiles cfg lib mediaFiles
                  \<lparr>files = initialFiles env,
                   stats = initialStats\<lparr>totalFiles := length mediaFiles\<rparr>,
                   toFileCalls = []\<rparr>)"
    and "exitCode (main cfg lib env) = 0"
  using assms by (cases "mediaFiles = []"; simp add: main_def Let_def split: prod.splits)+

text \<open>
  C1. After a run of \<^verbatim>\<open>main\<close> over any discovered file list, the counters of converted,
  skipped and failed files add up to the number of files found: every file adds one to
  exactly one of the three. The number of files found is the length of the discovered
  list (0 when the root could not be accessed).
\<close>

theorem outcome_counters_sum_to_total:
  "converted (stats (final (main cfg lib env))) + skipped (stats (final (main cfg lib env)))
     + errors (stats (final (main cfg lib env)))
   = totalFiles (stats (final (main cfg lib env)))
   \<and> totalFiles (stats (final (main cfg lib env)))
       = (case discover cfg env of None \<Rightarrow> 0 | Some mediaFiles \<Rightarrow> length mediaFiles)"
proof (cases "discover cfg env")
  case None
  then show ?thesis by (simp add: main_def initialStats_def)
next
  case (Some mediaFiles)
  let ?w1 = "\<lparr>files = initialFiles env,
              stats = initialStats\<lparr>totalFiles := length mediaFiles\<rparr>, toFileCalls = []\<rparr>"
  obtain outs w2 where r: "processFiles cfg lib mediaFiles ?w1 = (outs, w2)"
    by (cases "processFiles cfg lib mediaFiles ?w1")
  from main_final(1) [OF Some, of lib] r have "final (main cfg lib env) = w2" by simp
  with processFiles_counters [OF r] Some show ?thesis
    by (simp add: initialStats_def)
qed

section \<open>Skipping\<close>

text \<open>
  C5. A file is skipped (the outcome is a skip, the skipped counter goes up by one and the
  image library is not asked to encode) if and only if its output path exists when
  \<^verbatim>\<open>convertMedia\<close> looks. The outcome alone, and the counter alone, say the same.
\<close>

theorem skip_iff_output_exists:
  "((fst (convertMedia cfg lib p w) = Skipped
      \<and> skipped (stats (snd (convertMedia cfg lib p w))) = skipped (stats w) + 1
      \<and> toFileCalls (snd (convertMedia cfg lib p w)) = toFileCalls w)
     = access (files w) (outputPathOf cfg p))
   \<and> ((fst (convertMedia cfg lib p w) = Skipped) = access (files w) (outputPathOf cfg p))
   \<and> ((skipped (stats (snd (convertMedia cfg lib p w))) = skipped (stats w) + 1)
        = access (files w) (outputPathOf cfg p))"
  by (auto simp: convertMedia_def countError_def Let_def
           split: if_splits option.splits writeResult.splits)

section \<open>The files that were there stay as they are\<close>

lemma convertMedia_keeps_files:
  "files w p = Some b \<Longrightarrow> files (snd (convertMedia cfg lib q w)) p = Some b"
  by (auto simp: convertMedia_def countError_def Let_def access_def
           split: if_splits option.splits writeResult.splits)

lemma processFiles_Cons_fst:
  "fst (processFiles cfg lib (p # ps) w) =
     (p, fst (convertMedia cfg lib p w))
       # fst (processFiles cfg lib ps (snd (convertMedia cfg lib p w)))"
  by (simp split: prod.splits)

lemma processFiles_Cons_snd:
  "snd (processFiles cfg lib (p # ps) w) =
     snd (processFiles cfg lib ps (snd (convertMedia cfg lib p w)))"
  by (simp split: prod.splits)

lemma processFiles_keeps_files:
  "files w p = Some b \<Longrightarrow> files (snd (processFiles cfg lib qs w)) p = Some b"
proof (induction qs arbitrary: w)
  case Nil
  then show ?case by simp
next
  case (Cons q qs)
  have "files (snd (convertMedia cfg lib q w)) p = Some b"
    using Cons.prems by (rule convertMedia_keeps_files)
  from Cons.IH [OF this] show ?case
    by (simp only: processFiles_Cons_snd)
qed

text \<open>
  C4. Every file that is there when the run starts, so every input file, is still there
  with the same bytes when the run ends: the only write of a run goes to an output path
  that did not exist when it was checked.
\<close>

theorem originals_never_touched:
  "initialFiles env p = Some b \<Longrightarrow> files (final (main cfg lib env)) p = Some b"
proof (cases "discover cfg env")
  case None
  assume "initialFiles env p = Some b"
  with None show ?thesis by (simp add: main_def)
next
  case (Some mediaFiles)
  assume "initialFiles env p = Some b"
  then show ?thesis
    by (simp add: main_final(1) [OF Some] processFiles_keeps_files)
qed

theorem originals_never_touched_witness:
  "initialFiles sampleScan ''/site/assets/a.jpg'' = Some ''photo''
   \<and> files (final (main (defaultConfig Webp) sampleSharp sampleScan)) ''/site/assets/a.jpg''
       = Some ''photo''"
proof -
  have h: "initialFiles sampleScan ''/site/assets/a.jpg'' = Some ''photo''"
    by (simp add: sampleScan_def sampleFiles_def)
  from h originals_never_touched [OF h] show ?thesis by simp
qed

section \<open>A failure stays with its file\<close>

lemma processFiles_paths: "map fst (fst (processFiles cfg lib ps w)) = ps"
  by (induction ps arbitrary: w) (simp_all add: processFiles_Cons_fst del: processFiles.simps(2))

lemma processFiles_nth:
  "j < length ps \<Longrightarrow>
     fst (processFiles cfg lib ps w) ! j =
       (ps ! j, fst (convertMedia cfg lib (ps ! j) (snd (processFiles cfg lib (take j ps) w))))"
proof (induction ps arbitrary: j w)
  case Nil
  then show ?case by simp
next
  case (Cons p ps)
  show ?case
  proof (cases j)
    case 0
    then show ?thesis by (simp add: processFiles_Cons_fst del: processFiles.simps(2))
  next
    case (Suc i)
    with Cons.prems have "i < length ps" by simp
    from Cons.IH [OF this] Suc show ?thesis
      by (simp add: processFiles_Cons_fst processFiles_Cons_snd del: processFiles.simps(2))
  qed
qed

text \<open>
  C3. When the conversion of the file at position \<open>K\<close> of the discovered list fails, the
  run still ends with exit code 0, the processed files are the whole list in order, and
  every file after \<open>K\<close> has the outcome that \<^verbatim>\<open>convertMedia\<close> gives it in the world
  its predecessors left.
\<close>

theorem failure_does_not_abort_batch:
  assumes "discover cfg env = Some tasks"
    and "K < length tasks"
    and "snd (processed (main cfg lib env) ! K) = Failed e"
  shows "exitCode (main cfg lib env) = 0
    \<and> map fst (processed (main cfg lib env)) = tasks
    \<and> (\<forall>j. K < j \<and> j < length tasks \<longrightarrow>
          processed (main cfg lib env) ! j =
            (tasks ! j,
             fst (convertMedia cfg lib (tasks ! j)
                    (snd (processFiles cfg lib (take j tasks)
                            (startWorld env (length tasks)))))))"
  using assms(1)
  by (simp add: main_final [OF assms(1)] processFiles_paths processFiles_nth)

theorem failure_does_not_abort_batch_witness:
  "discover (defaultConfig Webp) sampleScan
     = Some [''/site/assets/c.jpg'', ''/site/assets/a.jpg'', ''/site/assets/b.png'']
   \<and> snd (processed (main (defaultConfig Webp) sampleSharp sampleScan) ! 0)
       = Failed MetadataFailed
   \<and> exitCode (main (defaultConfig Webp) sampleSharp sampleScan) = 0
   \<and> map fst (processed (main (defaultConfig Webp) sampleSharp sampleScan))
       = [''/site/assets/c.jpg'', ''/site/assets/a.jpg'', ''/site/assets/b.png'']
   \<and> snd (processed (main (defaultConfig Webp) sampleSharp sampleScan) ! 1) = Converted 5 7
   \<and> snd (processed (main (defaultConfig Webp) sampleSharp sampleScan) ! 2) = Skipped"
proof -
  have d: "discover (defaultConfig Webp) sampleScan
             = Some [''/site/assets/c.jpg'', ''/site/assets/a.jpg'', ''/site/assets/b.png'']"
    by (simp add: eval_defs)
  have k: "(0::nat) < length [''/site/assets/c.jpg'', ''/site/assets/a.jpg'', ''/site/assets/b.png'']"
    by simp
  have f: "snd (processed (main (defaultConfig Webp) sampleSharp sampleScan) ! 0)
             = Failed MetadataFailed"
    by (simp add: eval_defs)
  have o: "snd (processed (main (defaultConfig Webp) sampleSharp sampleScan) ! 1) = Converted 5 7"
          "snd (processed (main (defaultConfig Webp) sampleSharp sampleScan) ! 2) = Skipped"
    by (simp_all add: eval_defs)
  from failure_does_not_abort_batch [OF d k f] d f o show ?thesis by simp
qed

section \<open>The exit code\<close>

text \<open>
  C8, as the code has it. The process exits with status 1 exactly when no file was named
  on the command line and \<^verbatim>\<open>fs.access\<close> rejects the scan root; in every other case it
  exits with status 0, whatever happened to the single files, and also when files were
  named and none of them is there.
\<close>

theorem exit_code_of_main:
  "exitCode (main cfg lib env) = (if explicitFiles env = [] \<and> root env = RootMissing then 1 else 0)"
  by (simp add: main_def discover_def Let_def split: option.splits rootState.splits prod.splits)

text \<open>
  C8 as stated fails: with one file named on the command line and that file missing, the
  run ends with exit code 0.
\<close>

theorem all_explicit_missing_exits_zero:
  "explicitFiles missingExplicit = [''gone.png'']
   \<and> \<not> access (initialFiles missingExplicit) (resolve (cwd missingExplicit) ''gone.png'')
   \<and> exitCode (main (defaultConfig Webp) sampleSharp missingExplicit) = 0"
  by (simp add: missingExplicit_def eval_defs)

section \<open>Which files become tasks\<close>

lemma concat_map_if:
  "concat (map (\<lambda>x. if P x then [g x] else []) xs) = map g (filter P xs)"
  by (induction xs) simp_all

lemma getMediaFiles_fileEntries:
  "getMediaFiles dir listing =
     map (\<lambda>(d, n). join d n)
       (filter (\<lambda>(d, n). toLowerCase (extname n)
                  \<in> set (SUPPORTED_IMAGE_FORMATS @ SUPPORTED_VIDEO_FORMATS))
          (fileEntries dir listing))"
  "scanItems dir items =
     map (\<lambda>(d, n). join d n)
       (filter (\<lambda>(d, n). toLowerCase (extname n)
                  \<in> set (SUPPORTED_IMAGE_FORMATS @ SUPPORTED_VIDEO_FORMATS))
          (entriesIn dir items))"
  by (induction dir listing and dir items rule: getMediaFiles_scanItems.induct) simp_all

lemma processFiles_outcomes:
  "fst (processFiles cfg lib ps w) =
     map (\<lambda>j. (ps ! j,
                fst (convertMedia cfg lib (ps ! j) (snd (processFiles cfg lib (take j ps) w)))))
       [0..<length ps]"
proof (rule nth_equalityI)
  have "length (fst (processFiles cfg lib ps w)) = length (map fst (fst (processFiles cfg lib ps w)))"
    by simp
  also have "\<dots> = length ps" by (simp only: processFiles_paths)
  finally show "length (fst (processFiles cfg lib ps w)) =
      length (map (\<lambda>j. (ps ! j,
                fst (convertMedia cfg lib (ps ! j) (snd (processFiles cfg lib (take j ps) w)))))
       [0..<length ps])"
    by simp
  then show "fst (processFiles cfg lib ps w) ! i =
      map (\<lambda>j. (ps ! j,
                fst (convertMedia cfg lib (ps ! j) (snd (processFiles cfg lib (take j ps) w)))))
       [0..<length ps] ! i" if "i < length (fst (processFiles cfg lib ps w))" for i
    using that by (simp add: processFiles_nth)
qed

text \<open>
  C10. When files are named on the command line, the tasks are exactly the named paths
  that exist, resolved, in the order given: no extension is looked at. In a scan they are
  exactly the non-directory entries met whose lower-cased extension is in one of the two
  lists of supported formats. In both modes every task, in order, is handed to
  \<^verbatim>\<open>convertMedia\<close> in the world its predecessors left, and its outcome is what
  \<^verbatim>\<open>convertMedia\<close> returns there.
\<close>

theorem explicit_files_bypass_allow_list:
  "(explicitFiles env \<noteq> [] \<longrightarrow>
      (let tasks = map (resolve (cwd env))
             (filter (\<lambda>f. access (initialFiles env) (resolve (cwd env) f)) (explicitFiles env))
       in map fst (processed (main cfg lib env)) = tasks
          \<and> processed (main cfg lib env) =
              map (\<lambda>j. (tasks ! j,
                         fst (convertMedia cfg lib (tasks ! j)
                                (snd (processFiles cfg lib (take j tasks)
                                        (startWorld env (length tasks)))))))
                [0..<length tasks]))
   \<and> (explicitFiles env = [] \<longrightarrow> root env = RootPresent listing \<longrightarrow>
      (let tasks = map (\<lambda>(d, n). join d n)
             (filter (\<lambda>(d, n). toLowerCase (extname n)
                        \<in> set (SUPPORTED_IMAGE_FORMATS @ SUPPORTED_VIDEO_FORMATS))
                (fileEntries (ASSETS_DIR cfg) listing))
       in map fst (processed (main cfg lib env)) = tasks
          \<and> processed (main cfg lib env) =
              map (\<lambda>j. (tasks ! j,
                         fst (convertMedia cfg lib (tasks ! j)
                                (snd (processFiles cfg lib (take j tasks)
                                        (startWorld env (length tasks)))))))
                [0..<length tasks]))"
proof (intro conjI impI)
  assume "explicitFiles env \<noteq> []"
  then have "discover cfg env =
      Some (map (resolve (cwd env))
          (filter (\<lambda>f. access (initialFiles env) (resolve (cwd env) f)) (explicitFiles env)))"
    by (simp add: discover_def Let_def concat_map_if)
  from main_final(2) [OF this, of lib] show "let tasks = map (resolve (cwd env))
             (filter (\<lambda>f. access (initialFiles env) (resolve (cwd env) f)) (explicitFiles env))
       in map fst (processed (main cfg lib env)) = tasks
          \<and> processed (main cfg lib env) =
              map (\<lambda>j. (tasks ! j,
                         fst (convertMedia cfg lib (tasks ! j)
                                (snd (processFiles cfg lib (take j tasks)
                                        (startWorld env (length tasks)))))))
                [0..<length tasks]"
    unfolding Let_def
    by (simp only: processFiles_paths processFiles_outcomes [symmetric] simp_thms)
next
  assume "explicitFiles env = []" and "root env = RootPresent listing"
  then have "discover cfg env = Some (getMediaFiles (ASSETS_DIR cfg) listing)"
    by (simp add: discover_def)
  from main_final(2) [OF this, of lib] show "let tasks = map (\<lambda>(d, n). join d n)
             (filter (\<lambda>(d, n). toLowerCase (extname n)
                        \<in> set (SUPPORTED_IMAGE_FORMATS @ SUPPORTED_VIDEO_FORMATS))
                (fileEntries (ASSETS_DIR cfg) listing))
       in map fst (processed (main cfg lib env)) = tasks
          \<and> processed (main cfg lib env) =
              map (\<lambda>j. (tasks ! j,
                         fst (convertMedia cfg lib (tasks ! j)
                                (snd (processFiles cfg lib (take j tasks)
                                        (startWorld env (length tasks)))))))
                [0..<length tasks]"
    unfolding Let_def getMediaFiles_fileEntries(1) [symmetric]
    by (simp only: processFiles_paths processFiles_outcomes [symmetric] simp_thms)
qed

text \<open>
  A file named on the command line with an extension outside the lists,
  \<^verbatim>\<open>notes.txt\<close>, is handed to \<^verbatim>\<open>convertMedia\<close> and to the encoder; in a scan
  \<^verbatim>\<open>b.webp\<close> is left out.
\<close>

theorem explicit_files_bypass_allow_list_witness:
  "explicitFiles sampleExplicit \<noteq> []
   \<and> processed (main (defaultConfig Webp) sampleSharp sampleExplicit)
       = [(''/site/notes.txt'', Converted 4 7), (''/site/assets/a.jpg'', Converted 5 7)]
   \<and> map (\<lambda>c. fst (snd c)) (toFileCalls (final (main (defaultConfig Webp) sampleSharp sampleExplicit)))
       = [''/site/notes.txt'', ''/site/assets/a.jpg'']
   \<and> explicitFiles sampleScan = []
   \<and> processed (main (defaultConfig Webp) sampleSharp sampleScan)
       = [(''/site/assets/c.jpg'', Failed MetadataFailed),
          (''/site/assets/a.jpg'', Converted 5 7),
          (''/site/assets/b.png'', Skipped)]"
proof -
  have e: "explicitFiles sampleExplicit \<noteq> []" by (simp add: sampleExplicit_def)
  have s: "explicitFiles sampleScan = []"
    and r: "root sampleScan = RootPresent (Some [FileEnt ''c.jpg'', FileEnt ''a.jpg'',
              FileEnt ''b.png'', FileEnt ''b.webp''])"
    by (simp_all add: sampleScan_def)
  have t1: "map (resolve (cwd sampleExplicit))
             (filter (\<lambda>f. access (initialFiles sampleExplicit) (resolve (cwd sampleExplicit) f))
                (explicitFiles sampleExplicit))
           = [''/site/notes.txt'', ''/site/assets/a.jpg'']"
    by (simp add: sampleExplicit_def sampleFiles_def access_def resolve_def isAbsolute_def
          normalizeString_def normalizeStep_def)
  have t2: "map (\<lambda>(d, n). join d n)
             (filter (\<lambda>(d, n). toLowerCase (extname n)
                        \<in> set (SUPPORTED_IMAGE_FORMATS @ SUPPORTED_VIDEO_FORMATS))
                (fileEntries (ASSETS_DIR (defaultConfig Webp))
                   (Some [FileEnt ''c.jpg'', FileEnt ''a.jpg'', FileEnt ''b.png'',
                          FileEnt ''b.webp''])))
           = [''/site/assets/c.jpg'', ''/site/assets/a.jpg'', ''/site/assets/b.png'']"
    by (simp add: defaultConfig_def join_def normalize_def isAbsolute_def
          normalizeString_def normalizeStep_def toLowerCase_def lowerChar_def extname_def
          SUPPORTED_IMAGE_FORMATS_def SUPPORTED_VIDEO_FORMATS_def)
  have 1: "processed (main (defaultConfig Webp) sampleSharp sampleExplicit)
       = [(''/site/notes.txt'', Converted 4 7), (''/site/assets/a.jpg'', Converted 5 7)]"
  proof -
    from explicit_files_bypass_allow_list [of sampleExplicit "defaultConfig Webp" sampleSharp] e
    have "processed (main (defaultConfig Webp) sampleSharp sampleExplicit)
            = fst (processFiles (defaultConfig Webp) sampleSharp
                     [''/site/notes.txt'', ''/site/assets/a.jpg'']
                     (startWorld sampleExplicit
                        (length [''/site/notes.txt'', ''/site/assets/a.jpg''])))"
      unfolding Let_def t1 processFiles_outcomes [symmetric] by blast
    also have "\<dots> = [(''/site/notes.txt'', Converted 4 7),
                      (''/site/assets/a.jpg'', Converted 5 7)]"
      by (simp add: sampleExplicit_def eval_defs)
    finally show ?thesis .
  qed
  have 2: "processed (main (defaultConfig Webp) sampleSharp sampleScan)
       = [(''/site/assets/c.jpg'', Failed MetadataFailed),
          (''/site/assets/a.jpg'', Converted 5 7),
          (''/site/assets/b.png'', Skipped)]"
  proof -
    from explicit_files_bypass_allow_list [of sampleScan "defaultConfig Webp" sampleSharp
            "Some [FileEnt ''c.jpg'', FileEnt ''a.jpg'', FileEnt ''b.png'', FileEnt ''b.webp'']"] s r
    have "processed (main (defaultConfig Webp) sampleSharp sampleScan)
            = fst (processFiles (defaultConfig Webp) sampleSharp
                     [''/site/assets/c.jpg'', ''/site/assets/a.jpg'', ''/site/assets/b.png'']
                     (startWorld sampleScan
                        (length [''/site/assets/c.jpg'', ''/site/assets/a.jpg'',
                                 ''/site/assets/b.png''])))"
      unfolding Let_def t2 processFiles_outcomes [symmetric] by blast
    also have "\<dots> = [(''/site/assets/c.jpg'', Failed MetadataFailed),
                      (''/site/assets/a.jpg'', Converted 5 7),
                      (''/site/assets/b.png'', Skipped)]"
      by (simp add: eval_defs)
    finally show ?thesis .
  qed
  have 3: "map (\<lambda>c. fst (snd c))
             (toFileCalls (final (main (defaultConfig Webp) sampleSharp sampleExplicit)))
       = [''/site/notes.txt'', ''/site/assets/a.jpg'']"
    by (simp add: sampleExplicit_def eval_defs)
  from e s 1 2 3 show ?thesis by simp
qed

section \<open>Animated input\<close>

lemma multi_page_animation_throws:
  assumes "callsAnimated p md"
    and "\<not> access (files w) (outputPathOf cfg p)"
    and "files w p = Some original"
    and "readMetadata lib p original = Some md"
  shows "fst (convertMedia cfg lib p w) = Failed TypeError"
    and "toFileCalls (snd (convertMedia cfg lib p w)) = toFileCalls w"
    and "files (snd (convertMedia cfg lib p w)) = files w"
    and "errors (stats (snd (convertMedia cfg lib p w))) = errors (stats w) + 1"
  using assms by (simp_all add: convertMedia_def countError_def Let_def)

lemma single_page_avif_options:
  assumes "isAnimated p"
    and "OUTPUT_FORMAT cfg = Avif"
    and "\<not> callsAnimated p md"
    and "\<not> access (files w) (outputPathOf cfg p)"
    and "files w p = Some original"
    and "readMetadata lib p original = Some md"
  shows "toFileCalls (snd (convertMedia cfg lib p w))
           = toFileCalls w @ [(encodeParams cfg p, p, outputPathOf cfg p)]"
    and "effort (encodeParams cfg p) = min (AVIF_EFFORT cfg) 4"
    and "item (encodeParams cfg p) = Some True"
  using assms
  by (auto simp: convertMedia_def countError_def encodeParams_def Let_def
           split: writeResult.splits option.splits)

text \<open>
  C9 at a concrete input. A GIF whose metadata report 24 pages is to be encoded to AVIF.
  Its extension makes it animated input and the page count opens the guard, so
  \<^verbatim>\<open>convertMedia\<close> calls \<^verbatim>\<open>sharpInstance.animated(true)\<close>, which throws: the file is counted
  as an error, no encoder is called with any effort, and no output is written.
\<close>

theorem animated_gif_is_never_encoded:
  "isGifFormat ''/site/assets/spin.gif''
   \<and> readMetadata sampleSharp ''/site/assets/spin.gif'' ''frames''
       = Some \<lparr>width = 4, height = 3, pages = Some 24\<rparr>
   \<and> fst (convertMedia (defaultConfig Avif) sampleSharp ''/site/assets/spin.gif''
            (startWorld sampleScan 1)) = Failed TypeError
   \<and> toFileCalls (snd (convertMedia (defaultConfig Avif) sampleSharp ''/site/assets/spin.gif''
                          (startWorld sampleScan 1))) = []
   \<and> files (snd (convertMedia (defaultConfig Avif) sampleSharp ''/site/assets/spin.gif''
                    (startWorld sampleScan 1))) ''/site/assets/spin.avif'' = None
   \<and> stats (snd (convertMedia (defaultConfig Avif) sampleSharp ''/site/assets/spin.gif''
                    (startWorld sampleScan 1)))
       = \<lparr>totalFiles = 1, converted = 0, skipped = 0, errors = 1,
          originalSize = 6, outputSize = 0, avifSize = 0\<rparr>"
  by (simp add: eval_defs)

section \<open>The byte totals of a failed file\<close>

lemma failed_conversion_sizes:
  "fst (convertMedia cfg lib p w) = Failed e \<Longrightarrow>
     outputSize (stats (snd (convertMedia cfg lib p w))) = outputSize (stats w)
     \<and> originalSize (stats (snd (convertMedia cfg lib p w)))
         = originalSize (stats w) + (case files w p of None \<Rightarrow> 0 | Some b \<Rightarrow> length b)"
  by (auto simp: convertMedia_def countError_def Let_def
           split: if_splits option.splits writeResult.splits)

text \<open>
  C7 at a concrete input: the encode of a nine-byte file fails; the error is counted, the
  output total stays 0, and the original total has grown by the nine bytes, since
  \<^verbatim>\<open>convertMedia\<close> adds the original size before it calls the image library.
\<close>

theorem failed_encode_adds_original_size:
  "fst (convertMedia (defaultConfig Webp) sampleSharp ''/site/assets/t.png''
          (startWorld sampleScan 1)) = Failed ToFileFailed
   \<and> stats (snd (convertMedia (defaultConfig Webp) sampleSharp ''/site/assets/t.png''
                   (startWorld sampleScan 1)))
       = \<lparr>totalFiles = 1, converted = 0, skipped = 0, errors = 1,
          originalSize = 9, outputSize = 0, avifSize = 0\<rparr>"
  by (simp add: eval_defs)

section \<open>The output path\<close>

lemma indexOf_prefix: "indexOf pat s = Some 0 \<longleftrightarrow> prefix pat s"
  by (cases s) auto





section \<open>A second run\<close>

text \<open>
  Over one and the same list of existing files, a second run converts nothing and writes
  nothing, and counts no error when the first run counted none: after the first run every
  file of the list is settled.
\<close>

lemma settled_step:
  assumes "settled cfg lib (files w) p"
  shows "files (snd (convertMedia cfg lib p w)) = files w"
    and "converted (stats (snd (convertMedia cfg lib p w))) = converted (stats w)"
    and "fst (convertMedia cfg lib p w) = Skipped \<or> (\<exists>e. fst (convertMedia cfg lib p w) = Failed e)"
  using assms
  by (auto simp: settled_def failsQuietly_def convertMedia_def countError_def Let_def
           split: if_splits option.splits writeResult.splits)

lemma settled_run:
  assumes "\<forall>p \<in> set ps. settled cfg lib (files w) p"
  shows "files (snd (processFiles cfg lib ps w)) = files w"
    and "converted (stats (snd (processFiles cfg lib ps w))) = converted (stats w)"
    and "\<forall>(p, out) \<in> set (fst (processFiles cfg lib ps w)). out = Skipped \<or> (\<exists>e. out = Failed e)"
  using assms
proof (induction ps arbitrary: w)
  case Nil
  { case 1 show ?case by simp }
  { case 2 show ?case by simp }
  { case 3 show ?case by simp }
next
  case (Cons p ps)
  { case 1
    then have h: "settled cfg lib (files w) p" and t: "\<forall>q \<in> set ps. settled cfg lib (files w) q"
      by simp_all
    from t settled_step(1) [OF h]
    have "\<forall>q \<in> set ps. settled cfg lib (files (snd (convertMedia cfg lib p w))) q" by simp
    from Cons.IH(1) [OF this] settled_step(1) [OF h] show ?case
      by (simp only: processFiles_Cons_snd) }
  { case 2
    then have h: "settled cfg lib (files w) p" and t: "\<forall>q \<in> set ps. settled cfg lib (files w) q"
      by simp_all
    from t settled_step(1) [OF h]
    have "\<forall>q \<in> set ps. settled cfg lib (files (snd (convertMedia cfg lib p w))) q" by simp
    from Cons.IH(2) [OF this] settled_step(2) [OF h] show ?case
      by (simp only: processFiles_Cons_snd) }
  { case 3
    then have h: "settled cfg lib (files w) p" and t: "\<forall>q \<in> set ps. settled cfg lib (files w) q"
      by simp_all
    from t settled_step(1) [OF h]
    have "\<forall>q \<in> set ps. settled cfg lib (files (snd (convertMedia cfg lib p w))) q" by simp
    from Cons.IH(3) [OF this] settled_step(3) [OF h] show ?case
      by (simp add: processFiles_Cons_fst del: processFiles.simps(2)) }
qed


lemma convertMedia_settles: "settled cfg lib (files (snd (convertMedia cfg lib p w))) p"
  by (auto simp: settled_def failsQuietly_def convertMedia_def countError_def access_def Let_def
           split: if_splits option.splits writeResult.splits)

lemma access_mono: "fs \<subseteq>\<^sub>m fs' \<Longrightarrow> access fs q \<Longrightarrow> access fs' q"
  by (auto simp: access_def map_le_def dom_def)

lemma settled_mono:
  assumes "fs \<subseteq>\<^sub>m fs'" and "fs p \<noteq> None" and "settled cfg lib fs p"
  shows "settled cfg lib fs' p"
proof -
  from assms(1,2) have "fs' p = fs p" by (auto simp: map_le_def dom_def)
  then have "failsQuietly cfg lib fs' p = failsQuietly cfg lib fs p"
    by (simp add: failsQuietly_def)
  with assms(1,3) access_mono [OF assms(1)] show ?thesis
    by (auto simp: settled_def)
qed

lemma convertMedia_grows: "files w \<subseteq>\<^sub>m files (snd (convertMedia cfg lib q w))"
  by (auto simp: map_le_def convertMedia_keeps_files)

lemma processFiles_grows: "files w \<subseteq>\<^sub>m files (snd (processFiles cfg lib qs w))"
  by (auto simp: map_le_def processFiles_keeps_files)

lemma run_settles:
  "\<forall>p \<in> set ps. files w p \<noteq> None \<Longrightarrow>
     \<forall>p \<in> set ps. settled cfg lib (files (snd (processFiles cfg lib ps w))) p"
proof (induction ps arbitrary: w)
  case Nil
  then show ?case by simp
next
  case (Cons p ps)
  let ?w1 = "snd (convertMedia cfg lib p w)"
  let ?w2 = "snd (processFiles cfg lib ps ?w1)"
  have g1: "files w \<subseteq>\<^sub>m files ?w1" by (rule convertMedia_grows)
  have g2: "files ?w1 \<subseteq>\<^sub>m files ?w2" by (rule processFiles_grows)
  from Cons.prems g1 have e1: "files ?w1 p \<noteq> None" and et: "\<forall>q \<in> set ps. files ?w1 q \<noteq> None"
    by (auto simp: map_le_def dom_def)
  have "settled cfg lib (files ?w2) p"
    using g2 e1 convertMedia_settles by (rule settled_mono)
  moreover from Cons.IH [OF et] have "\<forall>q \<in> set ps. settled cfg lib (files ?w2) q" .
  ultimately show ?case
    by (simp add: processFiles_Cons_snd del: processFiles.simps(2))
qed

lemma second_run_over_same_list:
  assumes "\<forall>p \<in> set ps. files w p \<noteq> None"
  shows "converted (stats (snd (processFiles cfg lib ps
            ((snd (processFiles cfg lib ps w))\<lparr>stats := initialStats\<lparr>totalFiles := length ps\<rparr>\<rparr>)))) = 0"
    and "files (snd (processFiles cfg lib ps
            ((snd (processFiles cfg lib ps w))\<lparr>stats := initialStats\<lparr>totalFiles := length ps\<rparr>\<rparr>)))
          = files (snd (processFiles cfg lib ps w))"
proof -
  let ?w1 = "(snd (processFiles cfg lib ps w))\<lparr>stats := initialStats\<lparr>totalFiles := length ps\<rparr>\<rparr>"
  from run_settles [OF assms]
  have s: "\<forall>p \<in> set ps. settled cfg lib (files ?w1) p" by simp
  from settled_run(2) [OF s]
  show "converted (stats (snd (processFiles cfg lib ps ?w1))) = 0"
    by (simp add: initialStats_def)
  from settled_run(1) [OF s]
  show "files (snd (processFiles cfg lib ps ?w1)) = files (snd (processFiles cfg lib ps w))"
    by simp
qed

lemma not_failed_output_exists:
  "\<forall>e. fst (convertMedia cfg lib p w) \<noteq> Failed e \<Longrightarrow>
     access (files (snd (convertMedia cfg lib p w))) (outputPathOf cfg p)"
  by (auto simp: convertMedia_def countError_def access_def Let_def
           split: if_splits option.splits writeResult.splits)

lemma no_failure_outputs_exist:
  "\<forall>(p, out) \<in> set (fst (processFiles cfg lib ps w)). \<forall>e. out \<noteq> Failed e \<Longrightarrow>
     \<forall>p \<in> set ps. access (files (snd (processFiles cfg lib ps w))) (outputPathOf cfg p)"
proof (induction ps arbitrary: w)
  case Nil
  then show ?case by simp
next
  case (Cons p ps)
  let ?w1 = "snd (convertMedia cfg lib p w)"
  let ?w2 = "snd (processFiles cfg lib ps ?w1)"
  from Cons.prems have h: "\<forall>e. fst (convertMedia cfg lib p w) \<noteq> Failed e"
    and t: "\<forall>(q, out) \<in> set (fst (processFiles cfg lib ps ?w1)). \<forall>e. out \<noteq> Failed e"
    by (simp_all add: processFiles_Cons_fst del: processFiles.simps(2))
  have "access (files ?w2) (outputPathOf cfg p)"
    using processFiles_grows not_failed_output_exists [OF h] by (rule access_mono)
  with Cons.IH [OF t] show ?case
    by (simp add: processFiles_Cons_snd del: processFiles.simps(2))
qed

lemma all_outputs_exist_run:
  "\<forall>p \<in> set ps. access (files w) (outputPathOf cfg p) \<Longrightarrow>
     errors (stats (snd (processFiles cfg lib ps w))) = errors (stats w)
     \<and> files (snd (processFiles cfg lib ps w)) = files w"
proof (induction ps arbitrary: w)
  case Nil
  then show ?case by simp
next
  case (Cons p ps)
  let ?w1 = "snd (convertMedia cfg lib p w)"
  from Cons.prems have a: "access (files w) (outputPathOf cfg p)" by simp
  then have s: "errors (stats ?w1) = errors (stats w)" "files ?w1 = files w"
    by (simp_all add: convertMedia_def Let_def)
  with Cons.prems have "\<forall>q \<in> set ps. access (files ?w1) (outputPathOf cfg q)" by simp
  from Cons.IH [OF this] s show ?case
    by (simp add: processFiles_Cons_snd del: processFiles.simps(2))
qed

lemma second_run_no_new_failures:
  assumes "\<forall>(p, out) \<in> set (fst (processFiles cfg lib ps w)). \<forall>e. out \<noteq> Failed e"
  shows "errors (stats (snd (processFiles cfg lib ps
            ((snd (processFiles cfg lib ps w))\<lparr>stats := initialStats\<lparr>totalFiles := length ps\<rparr>\<rparr>)))) = 0"
proof -
  let ?w1 = "(snd (processFiles cfg lib ps w))\<lparr>stats := initialStats\<lparr>totalFiles := length ps\<rparr>\<rparr>"
  from no_failure_outputs_exist [OF assms]
  have "\<forall>p \<in> set ps. access (files ?w1) (outputPathOf cfg p)" by simp
  from all_outputs_exist_run [OF this] show ?thesis by (simp add: initialStats_def)
qed

text \<open>
  C6 at a concrete input. The second run scans the root again. The first run turned
  \<^verbatim>\<open>shot.jpg.jpg\<close> into \<^verbatim>\<open>shot.webp.jpg\<close>, a name with a supported extension; the second run
  finds that file, and converts it.
\<close>

theorem second_run_converts_output_of_first:
  "processed (main (defaultConfig Webp) sampleSharp rescanFirst)
     = [(''/site/assets/shot.jpg.jpg'', Converted 5 7)]
   \<and> errors (stats (final (main (defaultConfig Webp) sampleSharp rescanFirst))) = 0
   \<and> files (final (main (defaultConfig Webp) sampleSharp rescanFirst))
         ''/site/assets/shot.webp.jpg'' = Some ''encoded''
   \<and> processed (main (defaultConfig Webp) sampleSharp rescanSecond)
       = [(''/site/assets/shot.jpg.jpg'', Skipped),
          (''/site/assets/shot.webp.jpg'', Converted 7 7)]
   \<and> converted (stats (final (main (defaultConfig Webp) sampleSharp rescanSecond))) = 1"
  by (simp add: rescanFirst_def rescanSecond_def eval_defs)

end
